theory Spec2Isabelle
  imports Main
begin

section \<open>The command shell of hw1/shell.c\<close>

text \<open>
  A C string is the list of its characters, an array of string pointers is the list of
  the strings it holds up to its terminating null pointer, and a null pointer is \<open>None\<close>.
  Three things the source can do are results of their own:
  \<^item> \<open>NullDeref\<close>: a null pointer is dereferenced, and the shell dies;
  \<^item> \<open>BufferOverflow\<close>: a write goes past the end of a buffer, and from there on the
    source does not determine what the shell does (it may die, or carry on with damaged
    data); the model follows the run no further;
  \<^item> \<open>UninitRead\<close>: the value handed on is that of a variable that was never assigned;
    the run goes on with an indeterminate pointer.

  The buffers whose size the source fixes are modelled with that size: \<open>paths[32]\<close>,
  \<open>redir_syn[1]\<close> and \<open>redir_target[128]\<close> of \<open>run_cmd\<close>, and the heap blocks of
  \<open>get_first_abs_path\<close> and \<open>get_last_path_token\<close>, which are requested one byte short of
  the string they receive. The argument vector is the list of the arguments in front of
  its terminating null pointer; the cell that receives the terminator is not modelled.
\<close>

datatype error = NullDeref | UninitRead | BufferOverflow

subsection \<open>The token sequence\<close>

type_synonym tokens = "string list"

text \<open>
  Modelled from the spec: tokenizer.h and its implementation are not among the sources.
  The spec describes the token sequence as an ordered, read-only sequence of strings whose
  entry at an index may be absent; \<open>tokens_get_length\<close> is its length and
  \<open>tokens_get_token\<close> the entry at an index, or the null pointer past the end.
\<close>

definition tokens_get_length :: "tokens \<Rightarrow> nat" where
  "tokens_get_length tokens = length tokens"

definition tokens_get_token :: "tokens \<Rightarrow> nat \<Rightarrow> string option" where
  "tokens_get_token tokens n = (if n < length tokens then Some (tokens ! n) else None)"

subsection \<open>The operating system as seen by the shell\<close>

text \<open>
  What became of a child process created by \<open>fork\<close>: its image was replaced by \<open>execv\<close>
  (path and argument vector), or \<open>execv\<close> returned and the child called \<open>exit\<close> with a
  status, or \<open>execv\<close> was handed an argument vector with an indeterminate cell (a cell
  that was never written, or one that received an unassigned pointer).
\<close>

datatype child = Replaced string "string list" | Exited int | Indeterminate_argv

record world =
  path_var :: "string option"             \<comment> \<open>\<open>getenv("PATH")\<close>; \<open>None\<close> when unset\<close>
  file_exists :: "string \<Rightarrow> bool"           \<comment> \<open>\<open>access(p, F_OK) != -1\<close>\<close>
  exec_ok :: "string \<Rightarrow> bool"               \<comment> \<open>\<open>execv(p, _)\<close> replaces the image\<close>
  chdir_to :: "string \<Rightarrow> string option"    \<comment> \<open>the directory \<open>chdir(p)\<close> leads to, if it succeeds\<close>
  fork_ok :: bool                         \<comment> \<open>\<open>fork()\<close> does not return -1\<close>
  strerror_text :: string                 \<comment> \<open>the text \<open>perror\<close> appends for a failed \<open>getcwd\<close>\<close>
  malloc_slack :: "nat \<Rightarrow> nat"             \<comment> \<open>the bytes \<open>malloc(n)\<close> provides beyond the \<open>n\<close> requested\<close>
  shell_is_interactive :: bool
  cwd :: string
  std_out :: string
  std_err :: string
  children :: "child list"                \<comment> \<open>the children created so far, oldest first\<close>
  halted :: "int option"                  \<comment> \<open>the status the shell itself exited with\<close>

definition EXIT_SUCCESS :: int where
  "EXIT_SUCCESS = 0"

definition print_out :: "string \<Rightarrow> world \<Rightarrow> world" where
  "print_out s w = w\<lparr>std_out := std_out w @ s\<rparr>"

definition print_err :: "string \<Rightarrow> world \<Rightarrow> world" where
  "print_err s w = w\<lparr>std_err := std_err w @ s\<rparr>"

definition perror :: "string \<Rightarrow> world \<Rightarrow> world" where
  "perror s w = print_err (s @ '': '' @ strerror_text w @ [CHR 0x0A]) w"

text \<open>\<open>chdir\<close> with a null pointer fails (EFAULT) and changes nothing.\<close>

definition chdir :: "string option \<Rightarrow> world \<Rightarrow> int \<times> world" where
  "chdir dir w =
     (case dir of
        None \<Rightarrow> (-1, w)
      | Some d \<Rightarrow> (case chdir_to w d of None \<Rightarrow> (-1, w) | Some c \<Rightarrow> (0, w\<lparr>cwd := c\<rparr>)))"

text \<open>\<open>getcwd(buf, n)\<close> fails when the directory and its terminator do not fit.\<close>

definition getcwd :: "nat \<Rightarrow> world \<Rightarrow> string option" where
  "getcwd n w = (if length (cwd w) < n then Some (cwd w) else None)"

subsection \<open>The built-in commands and their table\<close>

text \<open>
  A built-in takes the world and the tokens and returns its \<open>int\<close> together with the new
  world; \<open>cmd_exit\<close> does not return (\<open>None\<close>) and leaves the exit status in \<open>halted\<close>.
\<close>

type_synonym cmd_fun_t = "world \<Rightarrow> tokens \<Rightarrow> int option \<times> world"

record fun_desc =
  desc_fun :: cmd_fun_t
  desc_cmd :: string
  desc_doc :: string

definition cmd_exit :: cmd_fun_t where
  "cmd_exit w tokens = (None, w\<lparr>halted := Some 0\<rparr>)"

definition cmd_cd :: cmd_fun_t where
  "cmd_cd w tokens =
     (let dir = tokens_get_token tokens 1;
          (r, w') = chdir dir w
      in (Some 0, w'))"

definition cmd_pwd :: cmd_fun_t where
  "cmd_pwd w tokens =
     (case getcwd 1024 w of
        Some c \<Rightarrow> (Some 0, print_out (c @ [CHR 0x0A]) w)
      | None \<Rightarrow> (Some 0, perror ''getcwd() error'' w))"

text \<open>
  The names and help texts of the table, which \<open>cmd_help\<close> prints; \<open>cmd_table\<close> below
  adds the functions.
\<close>

definition table_names :: "(string \<times> string) list" where
  "table_names =
     [(''pwd'', ''print working directory''),
      (''cd'', ''change directory''),
      (''?'', ''show this help menu''),
      (''exit'', ''exit the command shell'')]"

primrec help_lines :: "(string \<times> string) list \<Rightarrow> world \<Rightarrow> world" where
  "help_lines [] w = w"
| "help_lines (d # ds) w = help_lines ds (print_out (fst d @ '' - '' @ snd d @ [CHR 0x0A]) w)"

definition cmd_help :: cmd_fun_t where
  "cmd_help w tokens = (Some 1, help_lines table_names w)"

definition cmd_table :: "fun_desc list" where
  "cmd_table =
     [\<lparr>desc_fun = cmd_pwd, desc_cmd = ''pwd'', desc_doc = ''print working directory''\<rparr>,
      \<lparr>desc_fun = cmd_cd, desc_cmd = ''cd'', desc_doc = ''change directory''\<rparr>,
      \<lparr>desc_fun = cmd_help, desc_cmd = ''?'', desc_doc = ''show this help menu''\<rparr>,
      \<lparr>desc_fun = cmd_exit, desc_cmd = ''exit'', desc_doc = ''exit the command shell''\<rparr>]"

text \<open>
  \<open>lookup\<close>: the index of the first table entry whose name equals \<open>cmd\<close>, or -1; a null
  \<open>cmd\<close> matches nothing.
\<close>

primrec lookup_from :: "nat \<Rightarrow> fun_desc list \<Rightarrow> string option \<Rightarrow> int" where
  "lookup_from i [] cmd = -1"
| "lookup_from i (d # ds) cmd =
     (if cmd \<noteq> None \<and> Some (desc_cmd d) = cmd then int i else lookup_from (Suc i) ds cmd)"

definition lookup :: "string option \<Rightarrow> int" where
  "lookup cmd = lookup_from 0 cmd_table cmd"

subsection \<open>Splitting strings with strtok\<close>

text \<open>
  One call of \<open>strtok\<close> (or \<open>strtok_r\<close>) on the text that is left: skip the leading
  delimiters; at the end of the text return the null pointer; otherwise the token runs to
  the next delimiter, which is overwritten by the terminator, and the scan resumes behind
  it. The result is the token and the text left for the next call.
\<close>

definition strtok :: "string \<Rightarrow> string \<Rightarrow> (string \<times> string) option" where
  "strtok s delim =
     (let s1 = dropWhile (\<lambda>c. c \<in> set delim) s
      in if s1 = [] then None
         else Some (takeWhile (\<lambda>c. c \<notin> set delim) s1,
                    drop 1 (dropWhile (\<lambda>c. c \<notin> set delim) s1)))"

lemma strtok_shorter:
  assumes "strtok s delim = Some (tok, rest)"
  shows "length rest < length s"
proof -
  define s1 where "s1 = dropWhile (\<lambda>c. c \<in> set delim) s"
  from assms have ne: "s1 \<noteq> []" and rest: "rest = drop 1 (dropWhile (\<lambda>c. c \<notin> set delim) s1)"
    by (auto simp: strtok_def s1_def Let_def split: if_splits)
  from ne obtain x xs where s1: "s1 = x # xs"
    by (cases s1) auto
  have "x \<notin> set delim"
    using hd_dropWhile [of "\<lambda>c. c \<in> set delim" s] ne s1 by (simp add: s1_def)
  then have "length (dropWhile (\<lambda>c. c \<notin> set delim) s1) \<le> length xs"
    by (simp add: s1 length_dropWhile_le)
  moreover have "length s1 \<le> length s"
    by (simp add: s1_def length_dropWhile_le)
  ultimately show ?thesis
    by (simp add: rest s1)
qed

text \<open>The tokens that successive calls return until the null pointer.\<close>

function strtok_all :: "string \<Rightarrow> string \<Rightarrow> string list" where
  "strtok_all s delim =
     (case strtok s delim of
        None \<Rightarrow> []
      | Some (tok, rest) \<Rightarrow> tok # strtok_all rest delim)"
  by pat_completeness auto
termination
  by (relation "measure (\<lambda>(s, delim). length s)") (auto simp: strtok_shorter)

declare strtok_all.simps [simp del]

subsection \<open>The search path\<close>

text \<open>
  \<open>get_env_paths\<close>: \<open>strdup\<close> dereferences what \<open>getenv\<close> returned; the loop stores each
  token of the value, split at \<open>:\<close>, and the count returned is the length of the list.
\<close>

definition get_env_paths :: "world \<Rightarrow> error + string list" where
  "get_env_paths w =
     (case path_var w of
        None \<Rightarrow> Inl NullDeref
      | Some pathvar \<Rightarrow> Inr (strtok_all pathvar '':''))"

text \<open>
  \<open>get_last_path_token\<close>: the first token is fetched before the loop and never stored in
  \<open>cmd\<close>; the loop stores every later token; \<open>cmd\<close> is returned, assigned or not.
\<close>

primrec last_tok_loop :: "string option \<Rightarrow> string list \<Rightarrow> string option" where
  "last_tok_loop cmd [] = cmd"
| "last_tok_loop cmd (tok # toks) = last_tok_loop (Some tok) toks"

definition get_last_path_token :: "string \<Rightarrow> error + string" where
  "get_last_path_token path =
     (case strtok_all path ''/'' of
        [] \<Rightarrow> Inl UninitRead
      | tok # toks \<Rightarrow>
          (case last_tok_loop None toks of
             None \<Rightarrow> Inl UninitRead
           | Some cmd \<Rightarrow> Inr cmd))"

primrec get_first_abs_path :: "world \<Rightarrow> string list \<Rightarrow> string \<Rightarrow> string option" where
  "get_first_abs_path w [] cmd = None"
| "get_first_abs_path w (p # paths) cmd =
     (let full_path = p @ ''/'' @ cmd
      in if file_exists w full_path then Some full_path
         else get_first_abs_path w paths cmd)"

text \<open>
  The heap side of \<open>get_first_abs_path\<close>. For every directory it visits, the loop requests
  \<open>strlen(paths[i]) + strlen(cmd) + 1\<close> bytes, which is the length of the path it builds,
  and \<open>strcat\<close> writes that path and its terminator, one byte more than requested.
  \<open>tried_paths\<close> are the paths the loop builds, up to and including the one it returns;
  \<open>heap_fits\<close> says that the block requested for a string of that length has room for the
  terminator as well. \<open>get_last_path_token\<close> copies the resolved path into a block of
  \<open>strlen(path)\<close> bytes, the same request with the same string.
\<close>

primrec tried_paths :: "world \<Rightarrow> string list \<Rightarrow> string \<Rightarrow> string list" where
  "tried_paths w [] cmd = []"
| "tried_paths w (p # paths) cmd =
     (let full_path = p @ ''/'' @ cmd
      in full_path # (if file_exists w full_path then [] else tried_paths w paths cmd))"

definition heap_fits :: "world \<Rightarrow> string \<Rightarrow> bool" where
  "heap_fits w s = (0 < malloc_slack w (length s))"

subsection \<open>The argument vector\<close>

text \<open>
  The loop of \<open>get_args\<close> from index \<open>i\<close>, with the arguments stored so far. It returns
  the index it stopped at, the arguments, and the operator copied into \<open>redir_syn\<close> when
  it stopped at one (\<open>None\<close>: \<open>redir_syn\<close> was not written). \<open>strcmp\<close> dereferences the
  token.
\<close>

function get_args_loop ::
  "tokens \<Rightarrow> nat \<Rightarrow> nat \<Rightarrow> string list \<Rightarrow> error + (nat \<times> string list \<times> string option)"
where
  "get_args_loop tokens tok_len i args =
     (if i < tok_len then
        (case tokens_get_token tokens i of
           None \<Rightarrow> Inl NullDeref
         | Some token \<Rightarrow>
             if token = ''>'' \<or> token = ''<'' then Inr (i, args, Some token)
             else get_args_loop tokens tok_len (Suc i) (args @ [token]))
      else Inr (i, args, None))"
  by pat_completeness auto
termination
  by (relation "measure (\<lambda>(tokens, tok_len, i, args). tok_len - i)") auto

declare get_args_loop.simps [simp del]

text \<open>
  \<open>get_args\<close>: the arguments up to the null pointer stored at index \<open>i\<close>, the operator and
  the target. When the loop stopped before \<open>tok_len\<close>, the token at \<open>i + 1\<close> is copied into
  \<open>redir_target\<close> by \<open>strcat\<close>, which dereferences it.
\<close>

definition get_args ::
  "tokens \<Rightarrow> nat \<Rightarrow> error + (string list \<times> string option \<times> string option)"
where
  "get_args tokens tok_len =
     (case get_args_loop tokens tok_len 0 [] of
        Inl e \<Rightarrow> Inl e
      | Inr (i, args, redir_syn) \<Rightarrow>
          if i < tok_len then
            (case tokens_get_token tokens (i + 1) of
               None \<Rightarrow> Inl NullDeref
             | Some target \<Rightarrow> Inr (args, redir_syn, Some target))
          else Inr (args, redir_syn, None))"

subsection \<open>Running an external command\<close>

text \<open>
  \<open>args[0] = ...\<close>: with at least one argument stored, element 0 is replaced; with none,
  the store overwrites the terminating null pointer, and the cells behind it were never
  written.
\<close>

definition set_arg0 :: "string \<Rightarrow> string list \<Rightarrow> error + string list" where
  "set_arg0 a args = (case args of [] \<Rightarrow> Inl UninitRead | x # xs \<Rightarrow> Inr (a # xs))"

text \<open>
  The local variables of \<open>run_cmd\<close> at the call of \<open>fork\<close>: the resolved path, the
  argument vector, and the redirection descriptor after \<open>redir_syn\<close> was reset to the
  empty string.
\<close>

record frame =
  fr_abs_cmd :: string
  fr_args :: "error + string list"
  fr_redir_syn :: string
  fr_redir_target :: "string option"

text \<open>The child after \<open>fork\<close>: \<open>execv\<close>, and \<open>exit(EXIT_SUCCESS)\<close> when it returns.\<close>

definition run_child :: "world \<Rightarrow> frame \<Rightarrow> child" where
  "run_child w f =
     (case fr_args f of
        Inl e \<Rightarrow> Indeterminate_argv
      | Inr args \<Rightarrow>
          if exec_ok w (fr_abs_cmd f) then Replaced (fr_abs_cmd f) args
          else Exited EXIT_SUCCESS)"

definition fork_and_wait :: "world \<Rightarrow> frame \<Rightarrow> world" where
  "fork_and_wait w f =
     (if fork_ok w then w\<lparr>children := children w @ [run_child w f]\<rparr> else w)"

text \<open>
  A local character array of \<open>run_cmd\<close> that \<open>get_args\<close> fills by \<open>strcat\<close>: the string
  and its terminator fit into \<open>cap\<close> bytes, or nothing was written to it.
\<close>

definition fits :: "nat \<Rightarrow> string option \<Rightarrow> bool" where
  "fits cap buf = (case buf of None \<Rightarrow> True | Some s \<Rightarrow> length s + 1 \<le> cap)"

text \<open>
  The frame \<open>run_cmd\<close> builds for a resolved command, with \<open>char redir_syn[1]\<close> and
  \<open>char redir_target[128]\<close> as it declares them. When \<open>get_last_path_token\<close> returns its
  unassigned variable, the run goes on with an argument vector whose element 0 is
  indeterminate.
\<close>

definition build_frame :: "tokens \<Rightarrow> nat \<Rightarrow> string \<Rightarrow> error + frame" where
  "build_frame tokens tok_len abs_cmd =
     (case get_args tokens tok_len of
        Inl e \<Rightarrow> Inl e
      | Inr (args, redir_syn, redir_target) \<Rightarrow>
          if \<not> fits 1 redir_syn \<or> \<not> fits 128 redir_target then Inl BufferOverflow
          else
            Inr \<lparr>fr_abs_cmd = abs_cmd,
                 fr_args = (case get_last_path_token abs_cmd of
                              Inl e \<Rightarrow> Inl e
                            | Inr base \<Rightarrow> set_arg0 base args),
                 fr_redir_syn = [], fr_redir_target = redir_target\<rparr>)"

text \<open>
  \<open>run_cmd\<close>, with \<open>char *paths[32]\<close> as it declares it: \<open>get_env_paths\<close> stores one pointer
  per directory and tests no bound.
\<close>

definition run_cmd :: "world \<Rightarrow> tokens \<Rightarrow> error + world" where
  "run_cmd w tokens =
     (let tok_len = tokens_get_length tokens
      in if tok_len > 0 then
           (case get_env_paths w of
              Inl e \<Rightarrow> Inl e
            | Inr paths \<Rightarrow>
                if 32 < length paths then Inl BufferOverflow
                else
                  (case tokens_get_token tokens 0 of
                     None \<Rightarrow> Inl NullDeref
                   | Some cmd \<Rightarrow>
                       if \<not> list_all (heap_fits w) (tried_paths w paths cmd)
                       then Inl BufferOverflow
                       else
                         (case get_first_abs_path w paths cmd of
                            Some abs_cmd \<Rightarrow>
                              (case build_frame tokens tok_len abs_cmd of
                                 Inl e \<Rightarrow> Inl e
                               | Inr f \<Rightarrow> Inr (fork_and_wait w f))
                          | None \<Rightarrow>
                              Inr (print_err (cmd @ '': command not found'' @ [CHR 0x0A]) w))))
         else Inr w)"

subsection \<open>The read loop\<close>

text \<open>One turn of the loop of \<open>main\<close> on the tokens of a line.\<close>

definition dispatch :: "world \<Rightarrow> tokens \<Rightarrow> error + world" where
  "dispatch w tokens =
     (let fundex = lookup (tokens_get_token tokens 0)
      in if fundex \<ge> 0 then Inr (snd (desc_fun (cmd_table ! nat fundex) w tokens))
         else run_cmd w tokens)"

text \<open>
  The decimal digits of the line number in the prompt. The line number is kept as a
  natural number: the counter of the source is an \<open>int\<close>, which this model follows for
  fewer than \<open>2^31\<close> lines.
\<close>

function show_nat :: "nat \<Rightarrow> string" where
  "show_nat n =
     (if n < 10 then [char_of (48 + n)]
      else show_nat (n div 10) @ [char_of (48 + n mod 10)])"
  by pat_completeness auto
termination
  by (relation "measure (\<lambda>n. n)") auto

declare show_nat.simps [simp del]

definition prompt :: "nat \<Rightarrow> world \<Rightarrow> world" where
  "prompt line_num w =
     (if shell_is_interactive w then print_out (show_nat line_num @ '': '') w else w)"

text \<open>
  The loop of \<open>main\<close> over the lines that \<open>fgets\<close> delivers, with the tokenizer as a
  parameter. A null dereference or a buffer overflow ends the run with that result; \<open>exit\<close>
  ends the loop.
  \<open>init_shell\<close> contributes \<open>shell_is_interactive\<close>; its terminal set-up is not modelled.
\<close>

primrec main_loop :: "(string \<Rightarrow> tokens) \<Rightarrow> nat \<Rightarrow> string list \<Rightarrow> world \<Rightarrow> error + world" where
  "main_loop tokenize line_num [] w = Inr w"
| "main_loop tokenize line_num (line # lines) w =
     (case dispatch w (tokenize line) of
        Inl e \<Rightarrow> Inl e
      | Inr w1 \<Rightarrow>
          if halted w1 \<noteq> None then Inr w1
          else main_loop tokenize (Suc line_num) lines (prompt (Suc line_num) w1))"

definition main :: "(string \<Rightarrow> tokens) \<Rightarrow> string list \<Rightarrow> world \<Rightarrow> error + world" where
  "main tokenize lines w = main_loop tokenize 0 lines (prompt 0 w)"

subsection \<open>Splitting as the specification words it\<close>

text \<open>
  The specification's \<open>split_search_path\<close>: the segments between the separators, empty
  segments included. It is defined from the specification's words, for comparison with
  \<open>get_env_paths\<close>.
\<close>

primrec spec_split :: "char \<Rightarrow> string \<Rightarrow> string list" where
  "spec_split c [] = [[]]"
| "spec_split c (x # xs) =
     (if x = c then [] # spec_split c xs
      else (case spec_split c xs of
              [] \<Rightarrow> [[x]]
            | seg # segs \<Rightarrow> (x # seg) # segs))"

subsection \<open>Sample worlds\<close>

text \<open>
  A quiet world with a given search path, the files that exist and the files that \<open>execv\<close>
  accepts: \<open>fork\<close> succeeds, nothing was printed and no child was created yet. Its
  allocator hands out blocks of 24, 40, 56, ... usable bytes, the smallest that holds the
  request, as the allocator of the GNU C library does on a 64-bit machine.
\<close>

definition mk_world :: "string option \<Rightarrow> string list \<Rightarrow> string list \<Rightarrow> world" where
  "mk_world pv files execs =
     \<lparr>path_var = pv,
      file_exists = (\<lambda>p. p \<in> set files),
      exec_ok = (\<lambda>p. p \<in> set execs),
      chdir_to = (\<lambda>d. None),
      fork_ok = True,
      strerror_text = [],
      malloc_slack = (\<lambda>n. if n \<le> 24 then 24 - n else 15 - (n - 25) mod 16),
      shell_is_interactive = False,
      cwd = ''/'',
      std_out = [],
      std_err = [],
      children = [],
      halted = None\<rparr>"


section \<open>Properties\<close>

subsection \<open>The loop of get_args\<close>

lemma get_args_loop_stop:
  assumes "k < length tokens" "tokens ! k = ''>'' \<or> tokens ! k = ''<''"
    and "\<forall>j. i \<le> j \<and> j < k \<longrightarrow> tokens ! j \<noteq> ''>'' \<and> tokens ! j \<noteq> ''<''"
    and "i \<le> k"
  shows "get_args_loop tokens (length tokens) i args
         = Inr (k, args @ take (k - i) (drop i tokens), Some (tokens ! k))"
  using assms
proof (induction "k - i" arbitrary: i args)
  case 0
  then have "i = k" by simp
  with 0 show ?case
    by (subst get_args_loop.simps) (auto simp: tokens_get_token_def)
next
  case (Suc n)
  then have lt: "i < k" and n: "n = k - Suc i" by simp_all
  from lt Suc.prems have nonop: "tokens ! i \<noteq> ''>''" "tokens ! i \<noteq> ''<''" by auto
  have ih: "get_args_loop tokens (length tokens) (Suc i) (args @ [tokens ! i])
        = Inr (k, (args @ [tokens ! i]) @ take (k - Suc i) (drop (Suc i) tokens), Some (tokens ! k))"
    using Suc.hyps(1) [OF n] Suc.prems lt by auto
  have d: "drop i tokens = tokens ! i # drop (Suc i) tokens"
    using lt Suc.prems(1) by (simp add: Cons_nth_drop_Suc)
  have "k - i = Suc (k - Suc i)"
    using lt by simp
  then have "take (k - i) (drop i tokens) = tokens ! i # take (k - Suc i) (drop (Suc i) tokens)"
    by (simp only: d take_Suc_Cons)
  moreover have "get_args_loop tokens (length tokens) i args
        = get_args_loop tokens (length tokens) (Suc i) (args @ [tokens ! i])"
    using nonop lt Suc.prems(1) by (subst get_args_loop.simps) (simp add: tokens_get_token_def)
  ultimately show ?case
    using ih by simp
qed

lemma get_args_loop_all:
  assumes "\<forall>j. i \<le> j \<and> j < length tokens \<longrightarrow> tokens ! j \<noteq> ''>'' \<and> tokens ! j \<noteq> ''<''"
    and "i \<le> length tokens"
  shows "get_args_loop tokens (length tokens) i args
         = Inr (length tokens, args @ drop i tokens, None)"
  using assms
proof (induction "length tokens - i" arbitrary: i args)
  case 0
  then have "i = length tokens" by simp
  then show ?case
    by (subst get_args_loop.simps) simp
next
  case (Suc n)
  then have lt: "i < length tokens" and n: "n = length tokens - Suc i" by simp_all
  from lt Suc.prems have nonop: "tokens ! i \<noteq> ''>''" "tokens ! i \<noteq> ''<''" by auto
  have ih: "get_args_loop tokens (length tokens) (Suc i) (args @ [tokens ! i])
        = Inr (length tokens, (args @ [tokens ! i]) @ drop (Suc i) tokens, None)"
    using Suc.hyps(1) [OF n] Suc.prems lt by auto
  have d: "drop i tokens = tokens ! i # drop (Suc i) tokens"
    using lt by (simp add: Cons_nth_drop_Suc)
  have "get_args_loop tokens (length tokens) i args
        = get_args_loop tokens (length tokens) (Suc i) (args @ [tokens ! i])"
    using nonop lt by (subst get_args_loop.simps) (simp add: tokens_get_token_def)
  with ih d show ?case
    by simp
qed



lemma get_args_plain:
  assumes "\<forall>t \<in> set tokens. t \<noteq> ''>'' \<and> t \<noteq> ''<''"
  shows "get_args tokens (length tokens) = Inr (tokens, None, None)"
proof -
  have "get_args_loop tokens (length tokens) 0 [] = Inr (length tokens, [] @ drop 0 tokens, None)"
    using assms by (intro get_args_loop_all) auto
  then show ?thesis
    by (simp add: get_args_def)
qed

subsection \<open>Executable resolution\<close>

text \<open>
  Claim C3. For every list of directories and every command name, \<open>get_first_abs_path\<close>
  goes through the directories in list order, forms the directory, \<open>/\<close> and the name,
  and returns the first of these for which a file exists (\<open>access\<close> with \<open>F_OK\<close>:
  existence, not executability). It returns the null pointer exactly when no directory
  yields an existing file. With the list \<open>/a\<close>, \<open>/b\<close> and the file in \<open>/a\<close>, the \<open>/a\<close> path
  is returned, whatever \<open>/b\<close> holds.
\<close>

theorem get_first_abs_path_first_match:
  "get_first_abs_path w paths cmd
     = map_option (\<lambda>p. p @ ''/'' @ cmd) (find (\<lambda>p. file_exists w (p @ ''/'' @ cmd)) paths)
   \<and> ((get_first_abs_path w paths cmd = None)
        = (\<forall>p \<in> set paths. \<not> file_exists w (p @ ''/'' @ cmd)))
   \<and> (file_exists w (''/a'' @ ''/'' @ cmd)
        \<longrightarrow> get_first_abs_path w [''/a'', ''/b''] cmd = Some (''/a'' @ ''/'' @ cmd))"
proof (intro conjI)
  show "get_first_abs_path w paths cmd
     = map_option (\<lambda>p. p @ ''/'' @ cmd) (find (\<lambda>p. file_exists w (p @ ''/'' @ cmd)) paths)"
    by (induction paths) (simp_all add: Let_def)
  show "(get_first_abs_path w paths cmd = None)
        = (\<forall>p \<in> set paths. \<not> file_exists w (p @ ''/'' @ cmd))"
    by (induction paths) (simp_all add: Let_def)
  show "file_exists w (''/a'' @ ''/'' @ cmd)
        \<longrightarrow> get_first_abs_path w [''/a'', ''/b''] cmd = Some (''/a'' @ ''/'' @ cmd)"
    by (simp add: Let_def)
qed

theorem get_first_abs_path_first_match_witness:
  "file_exists (mk_world None [''/a/cmd'', ''/b/cmd''] []) ''/a/cmd''
   \<and> file_exists (mk_world None [''/a/cmd'', ''/b/cmd''] []) ''/b/cmd''
   \<and> get_first_abs_path (mk_world None [''/a/cmd'', ''/b/cmd''] []) [''/a'', ''/b''] ''cmd''
       = Some ''/a/cmd''
   \<and> get_first_abs_path (mk_world None [''/a/cmd'', ''/b/cmd''] []) [''/c'', ''/b'', ''/a''] ''cmd''
       = Some ''/b/cmd''
   \<and> get_first_abs_path (mk_world None [''/a/cmd'', ''/b/cmd''] []) [''/c'', ''/d''] ''cmd'' = None"
  using get_first_abs_path_first_match
          [of "mk_world None [''/a/cmd'', ''/b/cmd''] []" "[''/a'', ''/b'']" "''cmd''"]
        get_first_abs_path_first_match
          [of "mk_world None [''/a/cmd'', ''/b/cmd''] []" "[''/c'', ''/b'', ''/a'']" "''cmd''"]
        get_first_abs_path_first_match
          [of "mk_world None [''/a/cmd'', ''/b/cmd''] []" "[''/c'', ''/d'']" "''cmd''"]
  by (simp add: mk_world_def)

subsection \<open>The built-in cd\<close>

text \<open>
  Claim C10. \<open>cmd_cd\<close> returns 0 for every world and every token sequence. With token 1
  absent (no token at all, or the command name alone) \<open>chdir\<close> receives the null pointer,
  fails and changes nothing, and 0 is returned; in a world where every \<open>chdir\<close> fails,
  \<open>cmd_cd\<close> returns 0 and leaves the world as it was. The result of \<open>chdir\<close> never reaches
  the caller.
\<close>

theorem cmd_cd_returns_zero:
  "fst (cmd_cd w tokens) = Some 0
   \<and> cmd_cd w [] = (Some 0, w)
   \<and> cmd_cd w [c] = (Some 0, w)
   \<and> cmd_cd (w\<lparr>chdir_to := \<lambda>d. None\<rparr>) tokens = (Some 0, w\<lparr>chdir_to := \<lambda>d. None\<rparr>)"
  by (simp add: cmd_cd_def chdir_def tokens_get_token_def Let_def split: prod.split option.split)

subsection \<open>Splitting the search path\<close>

lemma strtok_all_Nil: "strtok_all [] delim = []"
  by (subst strtok_all.simps) (simp add: strtok_def)

lemma strtok_all_delim: "strtok_all (c # s) [c] = strtok_all s [c]"
  by (subst strtok_all.simps, subst (2) strtok_all.simps) (simp add: strtok_def)

lemma strtok_all_token:
  "x \<noteq> c \<Longrightarrow> strtok_all (x # s) [c]
     = (x # takeWhile (\<lambda>y. y \<noteq> c) s) # strtok_all (drop 1 (dropWhile (\<lambda>y. y \<noteq> c) s)) [c]"
  by (subst strtok_all.simps) (simp add: strtok_def)

lemma spec_split_unfold:
  "spec_split c s = takeWhile (\<lambda>y. y \<noteq> c) s
      # (case dropWhile (\<lambda>y. y \<noteq> c) s of [] \<Rightarrow> [] | d # r \<Rightarrow> spec_split c r)"
proof (induction s)
  case Nil
  show ?case by simp
next
  case (Cons x s)
  show ?case
  proof (cases "x = c")
    case True
    then show ?thesis by simp
  next
    case False
    then show ?thesis
      by (simp add: Cons.IH)
  qed
qed

lemma strtok_all_spec_split:
  "strtok_all s [c] = filter (\<lambda>p. p \<noteq> []) (spec_split c s)"
proof (induction "length s" arbitrary: s rule: less_induct)
  case less
  show ?case
  proof (cases s)
    case Nil
    then show ?thesis by (simp add: strtok_all_Nil)
  next
    case (Cons x r)
    show ?thesis
    proof (cases "x = c")
      case True
      with Cons less [of r] show ?thesis
        by (simp add: strtok_all_delim)
    next
      case False
      let ?d = "dropWhile (\<lambda>y. y \<noteq> c) r"
      have len: "length (drop 1 ?d) < length s"
        using length_dropWhile_le [of "\<lambda>y. y \<noteq> c" r] Cons by simp
      have "strtok_all s [c] = (x # takeWhile (\<lambda>y. y \<noteq> c) r) # strtok_all (drop 1 ?d) [c]"
        using False Cons by (simp add: strtok_all_token)
      also have "strtok_all (drop 1 ?d) [c] = filter (\<lambda>p. p \<noteq> []) (spec_split c (drop 1 ?d))"
        using len by (rule less)
      also have "(x # takeWhile (\<lambda>y. y \<noteq> c) r) # filter (\<lambda>p. p \<noteq> []) (spec_split c (drop 1 ?d))
          = filter (\<lambda>p. p \<noteq> []) (spec_split c s)"
      proof (cases ?d)
        case Nil
        have "spec_split c s = [x # takeWhile (\<lambda>y. y \<noteq> c) r]"
          using False \<open>s = x # r\<close> by (subst spec_split_unfold) (simp add: Nil)
        moreover have "filter (\<lambda>p. p \<noteq> []) (spec_split c (drop 1 ?d)) = []"
          by (simp add: Nil)
        ultimately show ?thesis by simp
      next
        case (Cons d r')
        have "spec_split c s = (x # takeWhile (\<lambda>y. y \<noteq> c) r) # spec_split c r'"
          using False \<open>s = x # r\<close> by (subst spec_split_unfold) (simp add: Cons)
        then show ?thesis using Cons by simp
      qed
      finally show ?thesis .
    qed
  qed
qed

text \<open>
  Claim C4, as amended. For every search-path string, \<open>get_env_paths\<close> returns the
  non-empty segments between the \<open>:\<close> separators, in their order and with repeated
  entries kept (no deduplication); \<open>strtok\<close> skips runs of separators, so the empty
  segments of the specification's split are dropped. The claim as written, that
  \<open>/a::/b\<close> yields the three entries \<open>/a\<close>, the empty string and \<open>/b\<close>, fails: the code
  yields the two entries \<open>/a\<close> and \<open>/b\<close>.
\<close>

theorem get_env_paths_drops_empty_segments:
  "get_env_paths (w\<lparr>path_var := Some s\<rparr>)
     = Inr (filter (\<lambda>p. p \<noteq> []) (spec_split CHR '':'' s))
   \<and> get_env_paths (w\<lparr>path_var := Some ''/a:/b:/a''\<rparr>) = Inr [''/a'', ''/b'', ''/a'']"
proof
  show "get_env_paths (w\<lparr>path_var := Some s\<rparr>)
     = Inr (filter (\<lambda>p. p \<noteq> []) (spec_split CHR '':'' s))"
    using strtok_all_spec_split [of s "CHR '':''"] by (simp add: get_env_paths_def)
  show "get_env_paths (w\<lparr>path_var := Some ''/a:/b:/a''\<rparr>) = Inr [''/a'', ''/b'', ''/a'']"
    by (simp add: get_env_paths_def strtok_all.simps strtok_def)
qed

theorem get_env_paths_empty_segment_counterexample:
  "spec_split CHR '':'' ''/a::/b'' = [''/a'', [], ''/b'']
   \<and> get_env_paths (mk_world (Some ''/a::/b'') [] []) = Inr [''/a'', ''/b'']
   \<and> get_env_paths (mk_world (Some ''/a::/b'') [] []) \<noteq> Inr [''/a'', [], ''/b'']"
  by (simp add: get_env_paths_def mk_world_def strtok_all.simps strtok_def)

subsection \<open>Built-in lookup and dispatch\<close>

lemma cmd_table_names: "map (\<lambda>d. (desc_cmd d, desc_doc d)) cmd_table = table_names"
  by (simp add: cmd_table_def table_names_def)

lemma lookup_names:
  "lookup (Some ''pwd'') = 0" "lookup (Some ''cd'') = 1"
  "lookup (Some ''?'') = 2" "lookup (Some ''exit'') = 3"
  by (simp_all add: lookup_def cmd_table_def)

lemma lookup_other:
  "c \<notin> set [''pwd'', ''cd'', ''?'', ''exit''] \<Longrightarrow> lookup (Some c) = -1"
  by (auto simp: lookup_def cmd_table_def)

lemma lookup_None: "lookup None = -1"
  by (simp add: lookup_def cmd_table_def)

lemma dispatch_builtins:
  "dispatch w (''pwd'' # rest) = Inr (snd (cmd_pwd w (''pwd'' # rest)))"
  "dispatch w (''cd'' # rest) = Inr (snd (cmd_cd w (''cd'' # rest)))"
  "dispatch w (''?'' # rest) = Inr (snd (cmd_help w (''?'' # rest)))"
  "dispatch w (''exit'' # rest) = Inr (snd (cmd_exit w (''exit'' # rest)))"
  by (simp_all add: dispatch_def tokens_get_token_def lookup_names cmd_table_def)

lemma dispatch_other:
  "c \<notin> set [''pwd'', ''cd'', ''?'', ''exit''] \<Longrightarrow> dispatch w (c # rest) = run_cmd w (c # rest)"
  using lookup_other [of c] by (simp add: dispatch_def tokens_get_token_def)

lemma help_lines_eq:
  "help_lines ds w
     = w\<lparr>std_out := std_out w @ concat (map (\<lambda>d. fst d @ '' - '' @ snd d @ [CHR 0x0A]) ds)\<rparr>"
  by (induction ds arbitrary: w) (simp_all add: print_out_def)

lemma help_lines_children: "children (help_lines ds w) = children w"
  by (simp add: help_lines_eq)

lemma builtin_children:
  "children (snd (cmd_pwd w tokens)) = children w"
  "children (snd (cmd_cd w tokens)) = children w"
  "children (snd (cmd_help w tokens)) = children w"
  "children (snd (cmd_exit w tokens)) = children w"
  by (simp_all add: cmd_pwd_def cmd_cd_def cmd_help_def cmd_exit_def help_lines_children
      print_out_def perror_def print_err_def getcwd_def chdir_def Let_def
      split: option.split prod.split)


lemma help_lines_env:
  "help_lines ds (w\<lparr>path_var := pv, file_exists := fe\<rparr>)
     = (help_lines ds w)\<lparr>path_var := pv, file_exists := fe\<rparr>"
  by (simp add: help_lines_eq)

lemma builtin_env:
  "snd (cmd_pwd (w\<lparr>path_var := pv, file_exists := fe\<rparr>) tokens)
     = (snd (cmd_pwd w tokens))\<lparr>path_var := pv, file_exists := fe\<rparr>"
  "snd (cmd_cd (w\<lparr>path_var := pv, file_exists := fe\<rparr>) tokens)
     = (snd (cmd_cd w tokens))\<lparr>path_var := pv, file_exists := fe\<rparr>"
  "snd (cmd_help (w\<lparr>path_var := pv, file_exists := fe\<rparr>) tokens)
     = (snd (cmd_help w tokens))\<lparr>path_var := pv, file_exists := fe\<rparr>"
  "snd (cmd_exit (w\<lparr>path_var := pv, file_exists := fe\<rparr>) tokens)
     = (snd (cmd_exit w tokens))\<lparr>path_var := pv, file_exists := fe\<rparr>"
  by (simp_all add: cmd_pwd_def cmd_cd_def cmd_help_def cmd_exit_def help_lines_env
      print_out_def perror_def print_err_def getcwd_def chdir_def Let_def
      split: option.split prod.split)

text \<open>
  Claim C9. \<open>lookup\<close> compares the name with the table entries exactly (case-sensitive):
  it returns the index of \<open>pwd\<close>, \<open>cd\<close>, \<open>?\<close> or \<open>exit\<close>, and -1 for a null name and for
  every other name, in which case the loop body calls \<open>run_cmd\<close>. For a line whose first
  token is one of the four names the loop body runs that built-in: no child process is
  created, and the outcome is the same whatever the search path and the existing files
  are, so it does not depend on an executable of the same name on the search path.
\<close>

theorem dispatch_builtin_short_circuit:
  "lookup None = -1
   \<and> dispatch w [] = run_cmd w []
   \<and> (c \<notin> set [''pwd'', ''cd'', ''?'', ''exit'']
        \<longrightarrow> lookup (Some c) = -1 \<and> dispatch w (c # rest) = run_cmd w (c # rest))
   \<and> (lookup (Some ''pwd'') = 0
        \<and> dispatch w (''pwd'' # rest) = Inr (snd (cmd_pwd w (''pwd'' # rest))))
   \<and> (lookup (Some ''cd'') = 1
        \<and> dispatch w (''cd'' # rest) = Inr (snd (cmd_cd w (''cd'' # rest))))
   \<and> (lookup (Some ''?'') = 2
        \<and> dispatch w (''?'' # rest) = Inr (snd (cmd_help w (''?'' # rest))))
   \<and> (lookup (Some ''exit'') = 3
        \<and> dispatch w (''exit'' # rest) = Inr (snd (cmd_exit w (''exit'' # rest))))
   \<and> (c \<in> set [''pwd'', ''cd'', ''?'', ''exit'']
        \<longrightarrow> (\<exists>w'. dispatch w (c # rest) = Inr w' \<and> children w' = children w
                  \<and> dispatch (w\<lparr>path_var := pv, file_exists := fe\<rparr>) (c # rest)
                      = Inr (w'\<lparr>path_var := pv, file_exists := fe\<rparr>)))"
proof (intro conjI impI)
  show "lookup None = -1" by (rule lookup_None)
  show "dispatch w [] = run_cmd w []"
    by (simp add: dispatch_def tokens_get_token_def lookup_None)
  show "lookup (Some c) = -1" if "c \<notin> set [''pwd'', ''cd'', ''?'', ''exit'']"
    using that by (rule lookup_other)
  show "dispatch w (c # rest) = run_cmd w (c # rest)" if "c \<notin> set [''pwd'', ''cd'', ''?'', ''exit'']"
    using that by (rule dispatch_other)
  show "\<exists>w'. dispatch w (c # rest) = Inr w' \<and> children w' = children w
           \<and> dispatch (w\<lparr>path_var := pv, file_exists := fe\<rparr>) (c # rest)
               = Inr (w'\<lparr>path_var := pv, file_exists := fe\<rparr>)"
    if "c \<in> set [''pwd'', ''cd'', ''?'', ''exit'']"
  proof -
    from that consider "c = ''pwd''" | "c = ''cd''" | "c = ''?''" | "c = ''exit''"
      by auto
    then show ?thesis
      by cases (simp_all only: dispatch_builtins builtin_children builtin_env simp_thms ex_simps sum.inject)
  qed
qed (simp_all only: lookup_names dispatch_builtins)


theorem dispatch_builtin_short_circuit_witness:
  "''PWD'' \<notin> set [''pwd'', ''cd'', ''?'', ''exit'']
   \<and> lookup (Some ''PWD'') = -1
   \<and> dispatch (mk_world (Some ''/bin'') [''/bin/pwd''] [''/bin/pwd'']) [''PWD'']
       = run_cmd (mk_world (Some ''/bin'') [''/bin/pwd''] [''/bin/pwd'']) [''PWD'']
   \<and> ''pwd'' \<in> set [''pwd'', ''cd'', ''?'', ''exit'']
   \<and> file_exists (mk_world (Some ''/bin'') [''/bin/pwd''] [''/bin/pwd'']) ''/bin/pwd''
   \<and> dispatch (mk_world (Some ''/bin'') [''/bin/pwd''] [''/bin/pwd'']) [''pwd'']
       = Inr ((mk_world (Some ''/bin'') [''/bin/pwd''] [''/bin/pwd''])\<lparr>std_out := ''/'' @ [CHR 0x0A]\<rparr>)
   \<and> (\<exists>w'. dispatch (mk_world (Some ''/bin'') [''/bin/pwd''] [''/bin/pwd'']) [''pwd''] = Inr w'
          \<and> children w' = [])"
  using dispatch_builtin_short_circuit
          [where c = "''PWD''" and w = "mk_world (Some ''/bin'') [''/bin/pwd''] [''/bin/pwd'']"
             and rest = "[]"]
        dispatch_builtin_short_circuit
          [where c = "''pwd''" and w = "mk_world (Some ''/bin'') [''/bin/pwd''] [''/bin/pwd'']"
             and rest = "[]"]
  by (simp add: mk_world_def cmd_pwd_def getcwd_def print_out_def)

subsection \<open>Evaluating run_cmd\<close>

text \<open>The definitions that evaluate \<open>run_cmd\<close> on a concrete world and line.\<close>

lemmas eval_defs = run_cmd_def mk_world_def get_env_paths_def tokens_get_length_def
  tokens_get_token_def strtok_all.simps strtok_def build_frame_def get_args_def
  get_args_loop.simps get_last_path_token_def set_arg0_def fork_and_wait_def run_child_def
  print_err_def EXIT_SUCCESS_def heap_fits_def fits_def Let_def

lemma tokens_get_token_0: "tokens \<noteq> [] \<Longrightarrow> tokens_get_token tokens 0 = Some (hd tokens)"
  by (cases tokens) (simp_all add: tokens_get_token_def)

text \<open>
  \<open>run_cmd\<close> on a non-empty line, once the search path is split, fits into \<open>paths[32]\<close>,
  and the paths that \<open>get_first_abs_path\<close> builds fit into their heap blocks.
\<close>

lemma run_cmd_within_buffers:
  assumes "tokens \<noteq> []"
    and "get_env_paths w = Inr paths"
    and "length paths \<le> 32"
    and "list_all (heap_fits w) (tried_paths w paths (hd tokens))"
  shows "run_cmd w tokens =
     (case get_first_abs_path w paths (hd tokens) of
        Some abs_cmd \<Rightarrow>
          (case build_frame tokens (tokens_get_length tokens) abs_cmd of
             Inl e \<Rightarrow> Inl e
           | Inr f \<Rightarrow> Inr (fork_and_wait w f))
      | None \<Rightarrow> Inr (print_err (hd tokens @ '': command not found'' @ [CHR 0x0A]) w))"
proof -
  have "0 < tokens_get_length tokens"
    using assms(1) by (simp add: tokens_get_length_def)
  then show ?thesis
    using assms by (simp add: run_cmd_def tokens_get_token_0)
qed

lemma run_cmd_paths_overflow:
  assumes "tokens \<noteq> []"
    and "get_env_paths w = Inr paths"
    and "32 < length paths"
  shows "run_cmd w tokens = Inl BufferOverflow"
  using assms by (simp add: run_cmd_def tokens_get_length_def)


text \<open>
  Two lines that leave the buffers: a search path of 40 directories, which overruns
  \<open>paths[32]\<close>, and a resolved path of 24 characters, whose terminator falls behind the
  24 usable bytes of its heap block.
\<close>

lemma strtok_all_dir: "strtok_all (''/d:'' @ s) '':'' = ''/d'' # strtok_all s '':''"
  by (subst strtok_all.simps) (simp add: strtok_def)

lemma strtok_all_dirs:
  "strtok_all (concat (replicate n ''/d:'')) '':'' = replicate n ''/d''"
proof (induction n)
  case 0
  show ?case by (simp add: strtok_all_Nil)
next
  case (Suc n)
  have "strtok_all (concat (replicate (Suc n) ''/d:'')) '':''
          = strtok_all (''/d:'' @ concat (replicate n ''/d:'')) '':''"
    by simp
  also have "\<dots> = ''/d'' # strtok_all (concat (replicate n ''/d:'')) '':''"
    by (rule strtok_all_dir)
  finally show ?case
    using Suc.IH by simp
qed

lemma run_cmd_forty_directories:
  "run_cmd (mk_world (Some (concat (replicate 40 ''/d:''))) [] []) [''ls''] = Inl BufferOverflow"
proof (rule run_cmd_paths_overflow)
  show "[''ls''] \<noteq> []" by simp
  show "get_env_paths (mk_world (Some (concat (replicate 40 ''/d:''))) [] [])
          = Inr (replicate 40 ''/d'')"
    by (simp add: get_env_paths_def mk_world_def strtok_all_dirs)
  show "32 < length (replicate 40 ''/d'')" by simp
qed

lemma run_cmd_path_of_24_characters:
  "length ''/usr/local/bin/mytool123'' = 24
   \<and> run_cmd (mk_world (Some ''/usr/local/bin'') [''/usr/local/bin/mytool123'']
                [''/usr/local/bin/mytool123'']) [''mytool123'']
       = Inl BufferOverflow"
  by (simp add: eval_defs)

subsection \<open>Command not found\<close>

text \<open>
  With the search path set and within the buffers, a first token that no directory holds
  makes \<open>run_cmd\<close> append the line \<open><cmd>: command not found\<close>, ended by a newline, to the
  error stream and nothing else: no child is created and the loop of \<open>main\<close> goes on.
\<close>

lemma run_cmd_prints_not_found:
  assumes "tokens \<noteq> []"
    and "get_env_paths w = Inr paths"
    and "length paths \<le> 32"
    and "list_all (heap_fits w) (tried_paths w paths (hd tokens))"
    and "get_first_abs_path w paths (hd tokens) = None"
  shows "run_cmd w tokens
           = Inr (w\<lparr>std_err := std_err w @ hd tokens @ '': command not found'' @ [CHR 0x0A]\<rparr>)"
  using assms by (simp add: run_cmd_within_buffers print_err_def)

text \<open>
  Claim C2 says that for every non-empty line whose first token is found in no directory
  of the search path, \<open>run_cmd\<close> prints \<open><cmd>: command not found\<close>, creates no child and
  returns, so that the loop goes on. In the code this fails when the search-path variable
  is unset: no directory holds the first token, but \<open>get_env_paths\<close> hands the null pointer
  of \<open>getenv\<close> to \<open>strdup\<close> before anything is printed, so \<open>run_cmd\<close> ends in a null
  dereference, and the loop of \<open>main\<close> ends with it instead of going on to the next line.
\<close>

theorem command_not_found_unset_path:
  assumes "tokens \<noteq> []"
    and "path_var w = None"
  shows "get_first_abs_path w [] (hd tokens) = None
     \<and> run_cmd w tokens = Inl NullDeref
     \<and> (\<forall>tokenize line lines n.
            tokenize line = tokens \<and> lookup (Some (hd tokens)) = -1
            \<longrightarrow> main_loop tokenize n (line # lines) w = Inl NullDeref)"
proof -
  have r: "run_cmd w tokens = Inl NullDeref"
    using assms by (simp add: run_cmd_def tokens_get_length_def get_env_paths_def)
  have d: "dispatch w tokens = run_cmd w tokens" if "lookup (Some (hd tokens)) = -1"
    using that assms(1) by (simp add: dispatch_def tokens_get_token_0)
  show ?thesis
    using d by (auto simp: r)
qed

theorem command_not_found_unset_path_witness:
  "[''foo'', ''-l''] \<noteq> []
   \<and> path_var (mk_world None [''/bin/ls''] [''/bin/ls'']) = None
   \<and> get_first_abs_path (mk_world None [''/bin/ls''] [''/bin/ls'']) [] (hd [''foo'', ''-l''])
       = None
   \<and> run_cmd (mk_world None [''/bin/ls''] [''/bin/ls'']) [''foo'', ''-l''] = Inl NullDeref
   \<and> lookup (Some (hd [''foo'', ''-l''])) = -1
   \<and> main_loop (\<lambda>line. [''foo'', ''-l'']) 0 [''foo -l'', ''foo -l'']
         (mk_world None [''/bin/ls''] [''/bin/ls''])
       = Inl NullDeref"
proof -
  let ?w = "mk_world None [''/bin/ls''] [''/bin/ls'']"
  have a: "[''foo'', ''-l''] \<noteq> []" by simp
  have b: "path_var ?w = None" by (simp add: mk_world_def)
  have l: "lookup (Some (hd [''foo'', ''-l''])) = -1"
    by (simp add: lookup_def cmd_table_def)
  note t = command_not_found_unset_path [OF a b]
  have m: "main_loop (\<lambda>line. [''foo'', ''-l'']) 0 (''foo -l'' # [''foo -l'']) ?w = Inl NullDeref"
    using l
    by (intro t [THEN conjunct2, THEN conjunct2, rule_format,
                 of "\<lambda>line. [''foo'', ''-l'']" "''foo -l''" 0 "[''foo -l'']"] conjI refl)
  from t a b l m show ?thesis
    by simp
qed

subsection \<open>Redirection tokens\<close>



subsection \<open>The exit status of a child that could not be replaced\<close>

lemma run_child_exec_fails:
  "fr_args f = Inr args \<Longrightarrow> \<not> exec_ok w (fr_abs_cmd f) \<Longrightarrow> run_child w f = Exited 0"
  by (simp add: run_child_def EXIT_SUCCESS_def)

lemma build_frame_abs_cmd:
  "build_frame tokens tok_len abs_cmd = Inr f \<Longrightarrow> fr_abs_cmd f = abs_cmd"
  by (auto simp: build_frame_def split: sum.splits if_splits)

text \<open>
  Claim C1 says that a child whose \<open>execv\<close> fails terminates with a status that is not the
  success status. In the code the child then calls \<open>exit(EXIT_SUCCESS)\<close>: in every launch
  (the search path and the resolved paths within their buffers) in which \<open>fork\<close> succeeds
  and \<open>execv\<close> refuses the resolved path, \<open>run_cmd\<close> leaves one more child, which exited
  with status 0, the success status.
\<close>

theorem exec_failure_child_exits_with_success:
  assumes "tokens \<noteq> []"
    and "get_env_paths w = Inr paths"
    and "length paths \<le> 32"
    and "list_all (heap_fits w) (tried_paths w paths (hd tokens))"
    and "get_first_abs_path w paths (hd tokens) = Some abs_cmd"
    and "build_frame tokens (tokens_get_length tokens) abs_cmd = Inr f"
    and "fr_args f = Inr args"
    and "fork_ok w"
    and "\<not> exec_ok w abs_cmd"
  shows "run_cmd w tokens = Inr (w\<lparr>children := children w @ [Exited 0]\<rparr>)"
proof -
  have "fr_abs_cmd f = abs_cmd"
    using assms(6) by (rule build_frame_abs_cmd)
  then have "run_child w f = Exited 0"
    using assms(7,9) by (simp add: run_child_exec_fails)
  then show ?thesis
    using assms(1-6,8)
    by (simp add: run_cmd_within_buffers fork_and_wait_def)
qed

theorem exec_failure_child_exits_with_success_witness:
  "file_exists (mk_world (Some ''/bin'') [''/bin/data''] []) ''/bin/data''
   \<and> \<not> exec_ok (mk_world (Some ''/bin'') [''/bin/data''] []) ''/bin/data''
   \<and> run_cmd (mk_world (Some ''/bin'') [''/bin/data''] []) [''data'']
       = Inr ((mk_world (Some ''/bin'') [''/bin/data''] [])\<lparr>children := [Exited 0]\<rparr>)"
proof -
  let ?w = "mk_world (Some ''/bin'') [''/bin/data''] []"
  let ?f = "\<lparr>fr_abs_cmd = ''/bin/data'', fr_args = Inr [''data''], fr_redir_syn = [],
             fr_redir_target = None\<rparr>"
  have a: "[''data''] \<noteq> []" by simp
  have b: "get_env_paths ?w = Inr [''/bin'']"
    by (simp add: eval_defs)
  have b1: "length [''/bin''] \<le> 32" by simp
  have b2: "list_all (heap_fits ?w) (tried_paths ?w [''/bin''] (hd [''data'']))"
    by (simp add: mk_world_def heap_fits_def)
  have c: "get_first_abs_path ?w [''/bin''] (hd [''data'']) = Some ''/bin/data''"
    by (simp add: mk_world_def)
  have d: "build_frame [''data''] (tokens_get_length [''data'']) ''/bin/data'' = Inr ?f"
    by (simp add: eval_defs)
  have e: "fr_args ?f = Inr [''data'']" by simp
  have f: "fork_ok ?w" by (simp add: mk_world_def)
  have g: "\<not> exec_ok ?w ''/bin/data''" by (simp add: mk_world_def)
  from exec_failure_child_exits_with_success [OF a b b1 b2 c d e f g] show ?thesis
    by (simp add: mk_world_def)
qed

subsection \<open>An unset search path\<close>

text \<open>
  Claim C5 says that with the search-path variable unset \<open>get_env_paths\<close> returns an empty
  list and resolution finds nothing. In the code \<open>strdup\<close> is handed the null pointer that
  \<open>getenv\<close> returned: whenever the variable is unset, \<open>get_env_paths\<close> ends in a null
  dereference, it returns no empty list, and \<open>run_cmd\<close> on any non-empty line ends in the
  same null dereference.
\<close>

theorem unset_path_null_dereference:
  assumes "path_var w = None"
  shows "get_env_paths w = Inl NullDeref
     \<and> get_env_paths w \<noteq> Inr []
     \<and> (tokens \<noteq> [] \<longrightarrow> run_cmd w tokens = Inl NullDeref)"
  using assms by (simp add: get_env_paths_def run_cmd_def tokens_get_length_def)

theorem unset_path_null_dereference_witness:
  "path_var (mk_world None [''/bin/ls''] [''/bin/ls'']) = None
   \<and> get_env_paths (mk_world None [''/bin/ls''] [''/bin/ls'']) = Inl NullDeref
   \<and> [''ls''] \<noteq> []
   \<and> run_cmd (mk_world None [''/bin/ls''] [''/bin/ls'']) [''ls''] = Inl NullDeref"
proof -
  have a: "path_var (mk_world None [''/bin/ls''] [''/bin/ls'']) = None"
    by (simp add: mk_world_def)
  from unset_path_null_dereference [OF a, of "[''ls'']"] a show ?thesis
    by simp
qed

subsection \<open>A redirection operator as the last token\<close>

text \<open>
  Claim C6 says that a line ending in \<open>>\<close> or \<open><\<close> is tolerated, with the target extraction
  skipped and no token read out of range. In the code the loop stops at the operator with
  \<open>i < tok_len\<close>, so the token at \<open>i + 1\<close> is requested: whenever the last token is the
  only operator of the line, that index is past the end, the token is absent, and the null
  pointer is handed to \<open>strcat\<close>, so that \<open>get_args\<close> ends in a null dereference and no
  frame is built.
\<close>

theorem trailing_redirection_null_dereference:
  assumes "tokens \<noteq> []"
    and "last tokens = ''>'' \<or> last tokens = ''<''"
    and "\<forall>t \<in> set (butlast tokens). t \<noteq> ''>'' \<and> t \<noteq> ''<''"
  shows "tokens_get_token tokens (length (butlast tokens) + 1) = None
     \<and> get_args tokens (tokens_get_length tokens) = Inl NullDeref
     \<and> (\<forall>abs_cmd. build_frame tokens (tokens_get_length tokens) abs_cmd = Inl NullDeref)"
proof -
  let ?k = "length tokens - 1"
  have k: "?k < length tokens" using assms(1) by simp
  have lastk: "tokens ! ?k = last tokens"
    using assms(1) by (simp add: last_conv_nth)
  have before: "\<forall>j. 0 \<le> j \<and> j < ?k \<longrightarrow> tokens ! j \<noteq> ''>'' \<and> tokens ! j \<noteq> ''<''"
  proof (intro allI impI)
    fix j assume j: "0 \<le> j \<and> j < ?k"
    then have "butlast tokens ! j \<in> set (butlast tokens)" by simp
    moreover have "butlast tokens ! j = tokens ! j"
      using j by (simp add: nth_butlast)
    ultimately show "tokens ! j \<noteq> ''>'' \<and> tokens ! j \<noteq> ''<''"
      using assms(3) by auto
  qed
  have opk: "tokens ! ?k = ''>'' \<or> tokens ! ?k = ''<''"
    using assms(2) by (simp only: lastk)
  have loop: "get_args_loop tokens (length tokens) 0 []
        = Inr (?k, [] @ take (?k - 0) (drop 0 tokens), Some (tokens ! ?k))"
    by (rule get_args_loop_stop [OF k opk before]) simp
  have none: "tokens_get_token tokens (?k + 1) = None"
    using assms(1) by (simp add: tokens_get_token_def)
  have g: "get_args tokens (tokens_get_length tokens) = Inl NullDeref"
    using k none by (simp add: get_args_def loop tokens_get_length_def)
  show ?thesis
    using none g by (simp add: build_frame_def)
qed

theorem trailing_redirection_null_dereference_witness:
  "[''cat'', ''>''] \<noteq> []
   \<and> last [''cat'', ''>''] = ''>''
   \<and> tokens_get_token [''cat'', ''>''] 2 = None
   \<and> get_args [''cat'', ''>''] (tokens_get_length [''cat'', ''>'']) = Inl NullDeref
   \<and> run_cmd (mk_world (Some ''/bin'') [''/bin/cat''] [''/bin/cat'']) [''cat'', ''>'']
       = Inl NullDeref"
proof -
  have a: "[''cat'', ''>''] \<noteq> []" by simp
  have b: "last [''cat'', ''>''] = ''>'' \<or> last [''cat'', ''>''] = ''<''" by simp
  have c: "\<forall>t \<in> set (butlast [''cat'', ''>'']). t \<noteq> ''>'' \<and> t \<noteq> ''<''" by simp
  have bf: "build_frame [''cat'', ''>''] (tokens_get_length [''cat'', ''>'']) ''/bin/cat''
              = Inl NullDeref"
    using trailing_redirection_null_dereference [OF a b c] by blast
  have r: "run_cmd (mk_world (Some ''/bin'') [''/bin/cat''] [''/bin/cat'']) [''cat'', ''>'']
       = Inl NullDeref"
    using bf
    by (simp add: run_cmd_def mk_world_def get_env_paths_def tokens_get_token_def
        strtok_all.simps strtok_def tokens_get_length_def heap_fits_def)
  from trailing_redirection_null_dereference [OF a b c] r show ?thesis
    by (simp add: numeral_2_eq_2)
qed

subsection \<open>Element 0 of the argument vector\<close>

lemma last_tok_loop_last:
  "last_tok_loop cmd toks = (if toks = [] then cmd else Some (last toks))"
  by (induction toks arbitrary: cmd) simp_all

lemma get_last_path_token_segments:
  "get_last_path_token path =
     (if length (strtok_all path ''/'') < 2 then Inl UninitRead
      else Inr (last (strtok_all path ''/'')))"
  by (cases "strtok_all path ''/''")
     (auto simp: get_last_path_token_def last_tok_loop_last)

text \<open>
  With two segments or more in the resolved path and at least one argument captured, the
  child is launched with the last segment in element 0, followed by the other captured
  tokens.
\<close>

lemma run_cmd_launch:
  assumes "tokens \<noteq> []"
    and "get_env_paths w = Inr paths"
    and "length paths \<le> 32"
    and "list_all (heap_fits w) (tried_paths w paths (hd tokens))"
    and "get_first_abs_path w paths (hd tokens) = Some abs_cmd"
    and "get_args tokens (tokens_get_length tokens) = Inr (a # args, redir_syn, redir_target)"
    and "fits 1 redir_syn" and "fits 128 redir_target"
    and "2 \<le> length (strtok_all abs_cmd ''/'')"
    and "fork_ok w"
    and "exec_ok w abs_cmd"
  shows "run_cmd w tokens
     = Inr (w\<lparr>children := children w
              @ [Replaced abs_cmd (last (strtok_all abs_cmd ''/'') # args)]\<rparr>)"
  using assms
  by (simp add: run_cmd_within_buffers build_frame_def
      get_last_path_token_segments set_arg0_def fork_and_wait_def run_child_def)

text \<open>
  Claim C7 says that element 0 of the launched argument vector is the last segment of the
  resolved path, for every resolved command. In the code \<open>get_last_path_token\<close> returns
  a variable that is assigned only from the second segment on: whenever the resolved path
  has fewer than two segments between its \<open>/\<close> separators, the variable is returned
  unassigned, \<open>run_cmd\<close> stores that indeterminate pointer in element 0 and goes on to
  \<open>fork\<close>, and the child calls \<open>execv\<close> with it. With the search path \<open>/\<close> the command
  \<open>ls\<close> resolves to \<open>//ls\<close>, which has one segment. On the claim's example,
  \<open>/usr/bin/wc\<close> with the tokens \<open>wc\<close>, \<open>-l\<close>, the child is launched with the vector \<open>wc\<close>,
  \<open>-l\<close>.
\<close>

theorem single_segment_path_uninitialised_arg0:
  assumes "tokens \<noteq> []"
    and "get_env_paths w = Inr paths"
    and "length paths \<le> 32"
    and "list_all (heap_fits w) (tried_paths w paths (hd tokens))"
    and "get_first_abs_path w paths (hd tokens) = Some abs_cmd"
    and "get_args tokens (tokens_get_length tokens) = Inr (args, redir_syn, redir_target)"
    and "fits 1 redir_syn" and "fits 128 redir_target"
    and "length (strtok_all abs_cmd ''/'') < 2"
  shows "get_last_path_token abs_cmd = Inl UninitRead
     \<and> run_cmd w tokens
         = Inr (if fork_ok w then w\<lparr>children := children w @ [Indeterminate_argv]\<rparr> else w)"
proof -
  have l: "get_last_path_token abs_cmd = Inl UninitRead"
    using assms(9) by (simp add: get_last_path_token_segments)
  then show ?thesis
    using assms(1-8)
    by (simp add: run_cmd_within_buffers build_frame_def fork_and_wait_def run_child_def)
qed

theorem single_segment_path_uninitialised_arg0_witness:
  "get_first_abs_path (mk_world (Some ''/'') [''//ls''] [''//ls'']) [''/''] (hd [''ls'', ''-a''])
     = Some ''//ls''
   \<and> strtok_all ''//ls'' ''/'' = [''ls'']
   \<and> get_last_path_token ''//ls'' = Inl UninitRead
   \<and> fork_ok (mk_world (Some ''/'') [''//ls''] [''//ls''])
   \<and> run_cmd (mk_world (Some ''/'') [''//ls''] [''//ls'']) [''ls'', ''-a'']
       = Inr ((mk_world (Some ''/'') [''//ls''] [''//ls''])\<lparr>children := [Indeterminate_argv]\<rparr>)
   \<and> run_cmd (mk_world (Some ''/usr/bin'') [''/usr/bin/wc''] [''/usr/bin/wc'']) [''wc'', ''-l'']
       = Inr ((mk_world (Some ''/usr/bin'') [''/usr/bin/wc''] [''/usr/bin/wc''])
                \<lparr>children := [Replaced ''/usr/bin/wc'' [''wc'', ''-l'']]\<rparr>)"
proof -
  let ?w = "mk_world (Some ''/'') [''//ls''] [''//ls'']"
  have x: "run_cmd (mk_world (Some ''/usr/bin'') [''/usr/bin/wc''] [''/usr/bin/wc''])
             [''wc'', ''-l'']
       = Inr ((mk_world (Some ''/usr/bin'') [''/usr/bin/wc''] [''/usr/bin/wc''])
                \<lparr>children := [Replaced ''/usr/bin/wc'' [''wc'', ''-l'']]\<rparr>)"
    by (simp add: eval_defs)
  have a: "[''ls'', ''-a''] \<noteq> []" by simp
  have b: "get_env_paths ?w = Inr [''/'']"
    by (simp add: eval_defs)
  have b1: "length [''/''] \<le> 32" by simp
  have b2: "list_all (heap_fits ?w) (tried_paths ?w [''/''] (hd [''ls'', ''-a'']))"
    by (simp add: mk_world_def heap_fits_def)
  have c: "get_first_abs_path ?w [''/''] (hd [''ls'', ''-a'']) = Some ''//ls''"
    by (simp add: mk_world_def)
  have d: "get_args [''ls'', ''-a''] (tokens_get_length [''ls'', ''-a''])
             = Inr ([''ls'', ''-a''], None, None)"
    by (simp add: eval_defs)
  have d1: "fits 1 None" and d2: "fits 128 None"
    by (simp_all add: fits_def)
  have s: "strtok_all ''//ls'' ''/'' = [''ls'']"
    by (simp add: strtok_all.simps strtok_def)
  then have e: "length (strtok_all ''//ls'' ''/'') < 2" by simp
  have f: "fork_ok ?w" by (simp add: mk_world_def)
  from single_segment_path_uninitialised_arg0 [OF a b b1 b2 c d d1 d2 e] c s x f show ?thesis
    by (simp add: mk_world_def)
qed

end
